theory Spec2Isabelle
  imports Main "HOL-Library.Sublist" "HOL-Library.AList"
begin

section \<open>Exceptions, strings and generators\<close>

text \<open>
  The exceptions the storage code raises or lets through.  The three classes of the
  shared taxonomy carry their message; \<open>ClientError code message\<close> is the
  backend client's own exception (botocore), \<open>OtherError\<close> any other exception
  of a collaborator.
\<close>

datatype error =
    ObjectNotFoundError string
  | ObjectPermissionError string
  | UnsupportedOperation string
  | ClientError string string
  | KeyError string
  | ValueError
  | TypeError
  | IndexError
  | OtherError string

fun is_not_found :: "error \<Rightarrow> bool" where
  "is_not_found (ObjectNotFoundError m) = True"
| "is_not_found e = False"

fun is_permission :: "error \<Rightarrow> bool" where
  "is_permission (ObjectPermissionError m) = True"
| "is_permission e = False"

fun is_unsupported :: "error \<Rightarrow> bool" where
  "is_unsupported (UnsupportedOperation m) = True"
| "is_unsupported e = False"

text \<open>
  A generator is run to its end: the items it yields, in order, and the exception that
  ends it, if any.  \<open>next\<close> on a fresh generator returns the first item when there
  is one, raises the final exception otherwise, and StopIteration (here \<open>Inr None\<close>)
  when the generator ends without yielding.
\<close>

type_synonym 'a gen = "'a list \<times> error option"


definition gen_append :: "'a list \<Rightarrow> 'a gen \<Rightarrow> 'a gen" where
  "gen_append xs g = (xs @ fst g, snd g)"

text \<open>Python's \<open>str.lstrip('/')\<close>, \<open>str.rstrip('/')\<close> and \<open>str.strip('/')\<close>.\<close>

definition is_sep :: "char \<Rightarrow> bool" where
  "is_sep c = (c = CHR ''/'')"

definition lstrip :: "string \<Rightarrow> string" where
  "lstrip s = dropWhile is_sep s"

definition rstrip :: "string \<Rightarrow> string" where
  "rstrip s = rev (dropWhile is_sep (rev s))"

definition strip :: "string \<Rightarrow> string" where
  "strip s = lstrip (rstrip s)"

text \<open>
  \<open>s.split(sep, 1)\<close> for a non-empty \<open>sep\<close>: the text before and after the
  leftmost occurrence of \<open>sep\<close>, or \<open>None\<close> when \<open>sep\<close> does not occur (Python then
  returns the one-element list \<open>[s]\<close>, and indexing it at 1 or unpacking it into two
  names raises).
\<close>

fun split_once :: "string \<Rightarrow> string \<Rightarrow> (string \<times> string) option" where
  "split_once sep [] = (if sep = [] then Some ([], []) else None)"
| "split_once sep (c # cs) =
     (if prefix sep (c # cs) then Some ([], drop (length sep) (c # cs))
      else map_option (\<lambda>(a, b). (c # a, b)) (split_once sep cs))"

section \<open>The storage system (io_system.py)\<close>

text \<open>
  A root is a literal string or a compiled pattern.  A pattern is kept as what
  \<open>root.split(path, maxsplit=1)\<close> computes: \<open>Some rest\<close> when the pattern matches
  somewhere in the path, \<open>rest\<close> being the text after the first match, and
  \<open>None\<close> when it matches nowhere.
\<close>

datatype root = Literal string | Pattern "string \<Rightarrow> string option"

type_synonym 'v header = "(string \<times> 'v) list"

text \<open>
  \<open>SystemBase\<close> with its abstract methods and class attributes as fields:
  \<open>get_client_kwargs\<close> under its own name, \<open>head_impl\<close> for \<open>_head\<close>,
  \<open>list_locators_impl\<close> for \<open>_list_locators\<close> and \<open>list_objects_impl\<close> for
  \<open>_list_objects\<close>, whose generators are taken run to their end.  Header values have the backend's type \<open>'v\<close>;
  \<open>to_int\<close> is Python's \<open>int\<close> on such a value, and \<open>to_time\<close> the conversion
  of \<open>_get_time\<close> (dateutil's \<open>parse\<close> and \<open>to_timestamp\<close>, or \<open>float\<close>)
  followed by the \<open>int\<close> that \<open>stat\<close> applies.
\<close>

record ('kw, 'v) system =
  roots :: "root list"
  get_client_kwargs :: "string \<Rightarrow> error + 'kw"
  head_impl :: "'kw \<Rightarrow> error + 'v header"
  list_locators_impl :: "(string \<times> 'v header) gen"
  list_objects_impl :: "'kw \<Rightarrow> string \<Rightarrow> nat option \<Rightarrow> (string \<times> 'v header) gen"
  SIZE_KEYS :: "string list"
  CTIME_KEYS :: "string list"
  MTIME_KEYS :: "string list"
  to_int :: "'v \<Rightarrow> error + int"
  to_time :: "'v \<Rightarrow> error + int"

text \<open>
  The body of the \<open>try\<close> in \<open>relpath\<close> for one root: \<open>Inr (Some relative)\<close> for
  the second element of the split, \<open>Inr None\<close> for IndexError (the root is not in
  the path), and ValueError for \<open>path.split('', 1)\<close>.
\<close>

fun root_split :: "root \<Rightarrow> string \<Rightarrow> error + string option" where
  "root_split (Pattern f) path = Inr (f path)"
| "root_split (Literal r) path =
     (if r = [] then Inl ValueError else Inr (map_option snd (split_once r path)))"

fun relpath_roots :: "root list \<Rightarrow> string \<Rightarrow> error + string" where
  "relpath_roots [] path = Inr path"
| "relpath_roots (root # rs) path =
     (case root_split root path of
        Inl e \<Rightarrow> Inl e
      | Inr (Some relative) \<Rightarrow> Inr (lstrip relative)
      | Inr None \<Rightarrow> relpath_roots rs path)"

definition relpath :: "('kw, 'v) system \<Rightarrow> string \<Rightarrow> error + string" where
  "relpath sys path = relpath_roots (roots sys) path"

text \<open>
  For the statements about \<open>relpath\<close>: a root is absent from a path when, for a
  literal root, the root is not empty and occurs nowhere in the path, and, for a
  pattern, the pattern matches nowhere in it.
\<close>

fun root_absent :: "root \<Rightarrow> string \<Rightarrow> bool" where
  "root_absent (Literal r) path = (r \<noteq> [] \<and> \<not> sublist r path)"
| "root_absent (Pattern f) path = (f path = None)"

text \<open>\<open>is_locator\<close> on a path that is already relative (\<open>relative=True\<close>).\<close>

definition is_locator_rel :: "string \<Rightarrow> bool" where
  "is_locator_rel path = (path \<noteq> [] \<and> CHR ''/'' \<notin> set (rstrip path))"

definition is_locator :: "('kw, 'v) system \<Rightarrow> string \<Rightarrow> bool \<Rightarrow> error + bool" where
  "is_locator sys path relative =
     (if relative then Inr (is_locator_rel path)
      else case relpath sys path of
             Inl e \<Rightarrow> Inl e
           | Inr p \<Rightarrow> Inr (is_locator_rel p))"

fun split_locator_roots :: "root list \<Rightarrow> string \<Rightarrow> error + string \<times> string" where
  "split_locator_roots rs path =
     (case relpath_roots rs path of
        Inl e \<Rightarrow> Inl e
      | Inr relative \<Rightarrow>
          (case split_once ''/'' relative of
             Some (locator, tail) \<Rightarrow> Inr (locator, tail)
           | None \<Rightarrow> Inr (relative, [])))"

definition split_locator :: "('kw, 'v) system \<Rightarrow> string \<Rightarrow> error + string \<times> string" where
  "split_locator sys path = split_locator_roots (roots sys) path"

definition head :: "('kw, 'v) system \<Rightarrow> string \<Rightarrow> 'kw option \<Rightarrow> 'v header option
    \<Rightarrow> error + 'v header" where
  "head sys path client_kwargs header =
     (case header of
        Some h \<Rightarrow> Inr h
      | None \<Rightarrow>
          (case client_kwargs of
             Some kw \<Rightarrow> head_impl sys kw
           | None \<Rightarrow>
               (case get_client_kwargs sys path of
                  Inl e \<Rightarrow> Inl e
                | Inr kw \<Rightarrow> head_impl sys kw)))"

definition exists :: "('kw, 'v) system \<Rightarrow> string \<Rightarrow> 'kw option \<Rightarrow> error + bool" where
  "exists sys path client_kwargs =
     (case head sys path client_kwargs None of
        Inl e \<Rightarrow> (if is_not_found e then Inr False else Inl e)
      | Inr h \<Rightarrow> Inr True)"

text \<open>
  \<open>list_objects\<close>, root case without \<open>first_level\<close>: each locator is yielded,
  then its objects; ObjectPermissionError while listing one locator goes on with the
  next locator, any other exception ends the generator.  The exception of the locators'
  own generator comes once its items are used up.
\<close>

fun list_root :: "('kw, 'v) system \<Rightarrow> nat option \<Rightarrow> (string \<times> 'v header) list
    \<Rightarrow> error option \<Rightarrow> (string \<times> 'v header) gen" where
  "list_root sys max_request_entries [] locators_err = ([], locators_err)"
| "list_root sys max_request_entries ((loc_path, loc_header) # locators) locators_err =
     (let loc = rstrip loc_path in
      case get_client_kwargs sys loc of
        Inl e \<Rightarrow>
          (if is_permission e
           then gen_append [(loc, loc_header)]
                  (list_root sys max_request_entries locators locators_err)
           else ([(loc, loc_header)], Some e))
      | Inr kw \<Rightarrow>
          (let objs = list_objects_impl sys kw [] max_request_entries;
               items = (loc, loc_header) #
                         map (\<lambda>(obj_path, obj_header).
                                (loc @ ''/'' @ lstrip obj_path, obj_header)) (fst objs)
           in case snd objs of
                None \<Rightarrow> gen_append items
                          (list_root sys max_request_entries locators locators_err)
              | Some e \<Rightarrow>
                  (if is_permission e
                   then gen_append items
                          (list_root sys max_request_entries locators locators_err)
                   else (items, Some e))))"

text \<open>
  The loop of \<open>list_objects\<close> over the backend's entries of a locator or
  sub-directory; \<open>path\<close> is the tail after the locator, \<open>seen\<close> the set of names
  already yielded (used with \<open>first_level\<close> only).
\<close>

definition remainder :: "string \<Rightarrow> string \<Rightarrow> string option" where
  \<comment> \<open>\<open>obj_path.split(path, 1)[1].lstrip('/')\<close> when \<open>path\<close> is not empty, \<open>None\<close> for
      IndexError; \<open>obj_path\<close> itself when \<open>path\<close> is empty\<close>
  "remainder path obj_path =
     (if path \<noteq> []
      then map_option (\<lambda>(before, rest). lstrip rest) (split_once path obj_path)
      else Some obj_path)"

definition first_level_entry :: "string \<Rightarrow> 'v header \<Rightarrow> string \<times> 'v header" where
  \<comment> \<open>the \<open>try\<close> of the first-level branch: a directory name with an empty header when
      the stripped path splits at a separator, the entry as it is for ValueError\<close>
  "first_level_entry obj_path header =
     (case split_once ''/'' (strip obj_path) of
        Some (first, rest) \<Rightarrow> (first @ ''/'', [])
      | None \<Rightarrow> (obj_path, header))"

fun list_entries :: "string \<Rightarrow> bool \<Rightarrow> string set \<Rightarrow> (string \<times> 'v header) list
    \<Rightarrow> (string \<times> 'v header) list" where
  "list_entries path first_level seen [] = []"
| "list_entries path first_level seen ((obj_path, header) # entries) =
     (case remainder path obj_path of
        None \<Rightarrow> list_entries path first_level seen entries
      | Some p \<Rightarrow>
          (if p = [] then list_entries path first_level seen entries
           else if first_level then
             (if fst (first_level_entry p header) \<notin> seen
              then first_level_entry p header #
                     list_entries path first_level
                       (insert (fst (first_level_entry p header)) seen) entries
              else list_entries path first_level seen entries)
           else (p, header) # list_entries path first_level seen entries))"

definition list_objects :: "('kw, 'v) system \<Rightarrow> string \<Rightarrow> bool \<Rightarrow> bool \<Rightarrow> nat option
    \<Rightarrow> (string \<times> 'v header) gen" where
  "list_objects sys path relative first_level max_request_entries =
     (case (if relative then Inr path else relpath sys path) of
        Inl e \<Rightarrow> ([], Some e)
      | Inr rel \<Rightarrow>
          (if rel = [] then
             (if first_level then list_locators_impl sys
              else list_root sys max_request_entries
                     (fst (list_locators_impl sys)) (snd (list_locators_impl sys)))
           else
             (case split_locator sys rel of
                Inl e \<Rightarrow> ([], Some e)
              | Inr (locator, tail) \<Rightarrow>
                  (case get_client_kwargs sys locator of
                     Inl e \<Rightarrow> ([], Some e)
                   | Inr kw \<Rightarrow>
                       (let objs = list_objects_impl sys kw tail max_request_entries
                        in (list_entries tail first_level {} (fst objs), snd objs))))))"


definition isfile :: "('kw, 'v) system \<Rightarrow> string \<Rightarrow> 'kw option \<Rightarrow> error + bool" where
  "isfile sys path client_kwargs =
     (case relpath sys path of
        Inl e \<Rightarrow> Inl e
      | Inr relative \<Rightarrow>
          (if relative = [] then Inr False
           else if path = [] then Inl IndexError
           else if last path \<noteq> CHR ''/'' \<and> \<not> is_locator_rel path
           then exists sys path client_kwargs
           else Inr False))"



subsection \<open>Header fields and stat\<close>

text \<open>
  \<open>header.pop(key)\<close> on the header dictionary: the value and the header without the
  key, or \<open>None\<close> for KeyError.
\<close>

definition pop :: "string \<Rightarrow> 'v header \<Rightarrow> ('v \<times> 'v header) option" where
  "pop key header = map_option (\<lambda>v. (v, AList.delete key header)) (map_of header key)"

text \<open>
  The extractors return their result with the header they leave behind.
  \<open>get_time\<close> returns the integer part of the time, see \<open>to_time\<close>.
\<close>

fun getsize_keys :: "('v \<Rightarrow> error + int) \<Rightarrow> string list \<Rightarrow> 'v header
    \<Rightarrow> (error + int) \<times> 'v header" where
  "getsize_keys conv [] header = (Inl (UnsupportedOperation ''getsize''), header)"
| "getsize_keys conv (key # keys) header =
     (case pop key header of
        Some (v, header') \<Rightarrow> (conv v, header')
      | None \<Rightarrow> getsize_keys conv keys header)"

definition getsize_from_header :: "('kw, 'v) system \<Rightarrow> 'v header \<Rightarrow> (error + int) \<times> 'v header" where
  "getsize_from_header sys header = getsize_keys (to_int sys) (SIZE_KEYS sys) header"

fun get_time :: "('v \<Rightarrow> error + int) \<Rightarrow> 'v header \<Rightarrow> string list \<Rightarrow> string
    \<Rightarrow> (error + int) \<times> 'v header" where
  "get_time conv header [] name = (Inl (UnsupportedOperation name), header)"
| "get_time conv header (key # keys) name =
     (case pop key header of
        None \<Rightarrow> get_time conv header keys name
      | Some (date_value, header') \<Rightarrow> (conv date_value, header'))"

definition getctime_from_header :: "('kw, 'v) system \<Rightarrow> 'v header \<Rightarrow> (error + int) \<times> 'v header" where
  "getctime_from_header sys header = get_time (to_time sys) header (CTIME_KEYS sys) ''getctime''"

definition getmtime_from_header :: "('kw, 'v) system \<Rightarrow> 'v header \<Rightarrow> (error + int) \<times> 'v header" where
  "getmtime_from_header sys header = get_time (to_time sys) header (MTIME_KEYS sys) ''getmtime''"

definition S_IFDIR :: int where
  "S_IFDIR = 16384"

definition S_IFREG :: int where
  "S_IFREG = 32768"

text \<open>The ten standard fields, all 0, in the order of the source's OrderedDict.\<close>

definition stat_fields :: "string list" where
  "stat_fields = [''st_mode'', ''st_ino'', ''st_dev'', ''st_nlink'', ''st_uid'', ''st_gid'',
     ''st_size'', ''st_atime'', ''st_mtime'', ''st_ctime'']"

definition stat_init :: "(string \<times> int) list" where
  "stat_init = map (\<lambda>k. (k, 0)) stat_fields"

text \<open>
  The loop over the three extractors: UnsupportedOperation leaves the field as it is,
  any other exception leaves \<open>stat\<close>.
\<close>

fun populate :: "(string \<times> ('v header \<Rightarrow> (error + int) \<times> 'v header)) list
    \<Rightarrow> (string \<times> int) list \<Rightarrow> 'v header \<Rightarrow> error + (string \<times> int) list \<times> 'v header" where
  "populate [] st header = Inr (st, header)"
| "populate ((key, method) # methods) st header =
     (case method header of
        (Inr n, header') \<Rightarrow> populate methods (AList.update key n st) header'
      | (Inl e, header') \<Rightarrow>
          (if is_unsupported e then populate methods st header' else Inl e))"

text \<open>
  \<open>'st_' + sub('', key.lower())\<close> with the pattern \<open>[^a-z0-9]*\<close>, on ASCII keys.
\<close>

definition lower_char :: "char \<Rightarrow> char" where
  "lower_char c =
     (case map_of (zip ''ABCDEFGHIJKLMNOPQRSTUVWXYZ'' ''abcdefghijklmnopqrstuvwxyz'') c of
        Some l \<Rightarrow> l
      | None \<Rightarrow> c)"

definition is_alnum_lower :: "char \<Rightarrow> bool" where
  "is_alnum_lower c = (c \<in> set ''abcdefghijklmnopqrstuvwxyz0123456789'')"

definition attr_name :: "string \<Rightarrow> string" where
  "attr_name key = ''st_'' @ filter is_alnum_lower (map lower_char key)"

text \<open>
  A value of the result: an integer set by \<open>stat\<close> itself, or a header value
  published as it is.
\<close>

datatype 'v stat_value = StInt int | StRaw 'v

definition add_header_keys :: "'v header \<Rightarrow> (string \<times> 'v stat_value) list
    \<Rightarrow> (string \<times> 'v stat_value) list" where
  "add_header_keys header st =
     fold (\<lambda>(key, v) st. AList.update (attr_name key) (StRaw v) st) header st"

definition stat :: "('kw, 'v) system \<Rightarrow> string \<Rightarrow> 'kw option \<Rightarrow> 'v header option
    \<Rightarrow> error + (string \<times> 'v stat_value) list" where
  "stat sys path client_kwargs header =
     (case head sys path client_kwargs header of
        Inl e \<Rightarrow> Inl e
      | Inr h \<Rightarrow>
          (case populate [(''st_size'', getsize_from_header sys),
                          (''st_ctime'', getctime_from_header sys),
                          (''st_mtime'', getmtime_from_header sys)] stat_init h of
             Inl e \<Rightarrow> Inl e
           | Inr (st, h') \<Rightarrow>
               (case (if path = [] then Inr True
                      else if last path = CHR ''/'' then Inr True
                      else is_locator sys path False) of
                  Inl e \<Rightarrow> Inl e
                | Inr dir_path \<Rightarrow>
                    (case map_of st ''st_size'' of
                       None \<Rightarrow> Inl (KeyError ''st_size'')
                     | Some st_size \<Rightarrow>
                         (let mode = (if dir_path \<and> st_size = 0 then S_IFDIR else S_IFREG)
                          in Inr (add_header_keys h'
                                    (map (\<lambda>(k, n). (k, StInt n))
                                       (AList.update ''st_mode'' mode st))))))))"

text \<open>
  For the statements about \<open>stat\<close>: the effect of one round of the extractor loop
  on the fields, and whether the outcome of an extractor lets the loop go on.
\<close>

definition store_field :: "string \<Rightarrow> error + int \<Rightarrow> (string \<times> int) list \<Rightarrow> (string \<times> int) list" where
  "store_field key r st = (case r of Inr n \<Rightarrow> AList.update key n st | Inl e \<Rightarrow> st)"

definition caught :: "error + int \<Rightarrow> bool" where
  "caught r = (case r of Inr n \<Rightarrow> True | Inl e \<Rightarrow> is_unsupported e)"

section \<open>The S3 storage (s3.py)\<close>

type_synonym bytes = "char list"

text \<open>
  \<open>_ERROR_CODES\<close> and \<open>_handle_client_error\<close>: the context manager, applied to the
  outcome of its body.
\<close>

definition ERROR_CODES :: "string \<Rightarrow> (string \<Rightarrow> error) option" where
  "ERROR_CODES code =
     (if code = ''AccessDenied'' then Some ObjectPermissionError
      else if code = ''NoSuchKey'' then Some ObjectNotFoundError
      else if code = ''403'' then Some ObjectPermissionError
      else if code = ''404'' then Some ObjectNotFoundError
      else None)"

fun handle_client_error :: "error + 'a \<Rightarrow> error + 'a" where
  "handle_client_error (Inl (ClientError code message)) =
     (case ERROR_CODES code of
        Some exception_class \<Rightarrow> Inl (exception_class message)
      | None \<Rightarrow> Inl (ClientError code message))"
| "handle_client_error r = r"

text \<open>
  The client arguments of S3: the bucket, the key when there is one, and the
  continuation token that \<open>_list_objects\<close> adds.
\<close>

record s3_kwargs =
  Bucket :: string
  Key :: "string option"
  ContinuationToken :: "string option"

definition s3_get_client_kwargs :: "root list \<Rightarrow> string \<Rightarrow> error + s3_kwargs" where
  "s3_get_client_kwargs rs path =
     (case split_locator_roots rs path of
        Inl e \<Rightarrow> Inl e
      | Inr (bucket_name, key) \<Rightarrow>
          Inr \<lparr>Bucket = bucket_name,
               Key = (if key = [] then None else Some key),
               ContinuationToken = None\<rparr>)"

text \<open>
  A response of \<open>list_objects_v2\<close>: the \<open>Contents\<close> and
  \<open>NextContinuationToken\<close> entries, each present or not.
\<close>

record 'v s3_page =
  Contents :: "(string \<times> 'v header) list option"
  NextContinuationToken :: "string option"

text \<open>
  \<open>_S3System._list_objects\<close>; the first argument is the client's
  \<open>list_objects_v2\<close>, taking the prefix and the client arguments.  The loop goes on
  as long as the responses carry a continuation token, so the result is \<open>None\<close>
  when it never ends.
\<close>

partial_function (option) s3_list_objects ::
    "(string \<Rightarrow> s3_kwargs \<Rightarrow> error + 'v s3_page) \<Rightarrow> s3_kwargs \<Rightarrow> string
     \<Rightarrow> (string \<times> 'v header) gen option" where
  "s3_list_objects list_objects_v2 client_kwargs path =
     (case handle_client_error (list_objects_v2 path client_kwargs) of
        Inl e \<Rightarrow> Some ([], Some e)
      | Inr response \<Rightarrow>
          (case Contents response of
             None \<Rightarrow> Some ([], Some (KeyError ''Contents''))
           | Some objs \<Rightarrow>
               (case NextContinuationToken response of
                  None \<Rightarrow> Some (objs, None)
                | Some token \<Rightarrow>
                    Option.bind
                      (s3_list_objects list_objects_v2
                         (client_kwargs\<lparr>ContinuationToken := Some token\<rparr>) path)
                      (\<lambda>g. Some (gen_append objs g)))))"

text \<open>
  \<open>S3RawIO\<close> in read mode: \<open>get_object\<close> is the client's call with the stream's
  client arguments and the given \<open>Range\<close>, \<open>read_body\<close> the read of the body of
  its response, and \<open>http_range\<close> the helper of the base class that formats the
  range.
\<close>

record ('r, 'b) s3_raw_io =
  get_object :: "'r \<Rightarrow> error + 'b"
  read_body :: "'b \<Rightarrow> error + bytes"
  http_range :: "nat \<Rightarrow> nat \<Rightarrow> 'r"

definition read_range :: "('r, 'b) s3_raw_io \<Rightarrow> nat \<Rightarrow> nat \<Rightarrow> error + bytes" where
  "read_range io start end' =
     (case handle_client_error (get_object io (http_range io start end')) of
        Inl (ClientError code message) \<Rightarrow>
          (if code = ''InvalidRange'' then Inr [] else Inl (ClientError code message))
      | Inl e \<Rightarrow> Inl e
      | Inr resp \<Rightarrow> read_body io resp)"

text \<open>
  \<open>S3BufferedIO\<close> in write mode.  A part holds its number and the outcome of its
  future, that is what \<open>result()\<close> returns (the ETag) or raises once the upload is
  over.  The client's \<open>upload_part\<close> gives that outcome for a part number and a body.
\<close>

record write_part =
  PartNumber :: nat
  response :: "error + string"

record s3_client =
  create_multipart_upload :: "error + string"
  upload_part :: "nat \<Rightarrow> bytes \<Rightarrow> error + string"
  complete_multipart_upload :: "string \<Rightarrow> (nat \<times> string) list \<Rightarrow> error option"

record s3_buffered_io =
  UploadId :: "string option"
  seek :: nat
  write_futures :: "write_part list"

definition flush :: "s3_client \<Rightarrow> bytes \<Rightarrow> s3_buffered_io \<Rightarrow> error + s3_buffered_io" where
  "flush client buffer io =
     (case (case UploadId io of
              Some upload_id \<Rightarrow> Inr io
            | None \<Rightarrow>
                (case handle_client_error (create_multipart_upload client) of
                   Inl e \<Rightarrow> Inl e
                 | Inr upload_id \<Rightarrow> Inr (io\<lparr>UploadId := Some upload_id\<rparr>))) of
        Inl e \<Rightarrow> Inl e
      | Inr io' \<Rightarrow>
          Inr (io'\<lparr>write_futures := write_futures io' @
                 [\<lparr>PartNumber = seek io',
                   response = upload_part client (seek io') buffer\<rparr>]\<rparr>))"

text \<open>
  The loop of \<open>_close_writable\<close> over the parts: the numbers of the parts whose
  \<open>result()\<close> was called, and either the exception of the first call that raised or
  the list of parts with their ETags.
\<close>

fun await_parts :: "write_part list \<Rightarrow> nat list \<times> (error + (nat \<times> string) list)" where
  "await_parts [] = ([], Inr [])"
| "await_parts (part # parts) =
     (case response part of
        Inl e \<Rightarrow> ([PartNumber part], Inl e)
      | Inr etag \<Rightarrow>
          (case await_parts parts of
             (awaited, Inl e) \<Rightarrow> (PartNumber part # awaited, Inl e)
           | (awaited, Inr done) \<Rightarrow>
               (PartNumber part # awaited, Inr ((PartNumber part, etag) # done))))"

text \<open>
  What a call of \<open>_close_writable\<close> did: the parts it waited for, the completion call
  it issued (upload id and part list), and the exception it raised.
\<close>

record close_result =
  awaited :: "nat list"
  completed :: "(string \<times> (nat \<times> string) list) option"
  raised :: "error option"

definition close_writable :: "s3_client \<Rightarrow> s3_buffered_io \<Rightarrow> close_result" where
  "close_writable client io =
     (case await_parts (write_futures io) of
        (aw, Inl e) \<Rightarrow> \<lparr>awaited = aw, completed = None, raised = Some e\<rparr>
      | (aw, Inr parts) \<Rightarrow>
          (case UploadId io of
             None \<Rightarrow> \<lparr>awaited = aw, completed = None, raised = Some (KeyError ''UploadId'')\<rparr>
           | Some upload_id \<Rightarrow>
               \<lparr>awaited = aw, completed = Some (upload_id, parts),
                raised = complete_multipart_upload client upload_id parts\<rparr>))"

text \<open>
  Modelled from the spec: the write path of the buffered base class, which is not part
  of the sources at hand.  It numbers the buffers of a stream 1, 2, ... in the order
  they fill up and dispatches each one through \<open>_flush\<close>.
\<close>

fun write_parts :: "s3_client \<Rightarrow> bytes list \<Rightarrow> s3_buffered_io \<Rightarrow> error + s3_buffered_io" where
  "write_parts client [] io = Inr io"
| "write_parts client (buffer # buffers) io =
     (case flush client buffer (io\<lparr>seek := Suc (seek io)\<rparr>) of
        Inl e \<Rightarrow> Inl e
      | Inr io' \<Rightarrow> write_parts client buffers io')"

definition new_stream :: s3_buffered_io where
  "new_stream = \<lparr>UploadId = None, seek = 0, write_futures = []\<rparr>"

section \<open>Example instances\<close>

text \<open>
  A storage kept in memory, served through the S3 addressing: each bucket has a name,
  the objects it lists (key and header, in listing order) and the exception that ends
  its listing, if any.  Header values are integers.  \<open>head\<close> of a bucket gives an
  empty header, \<open>head\<close> of a missing bucket or key raises ObjectNotFoundError, and a
  listing returns the objects whose key starts with the prefix.
\<close>

type_synonym bucket = "(string \<times> int header) gen"

definition example_head :: "(string \<times> bucket) list \<Rightarrow> s3_kwargs \<Rightarrow> error + int header" where
  "example_head store kw =
     (case map_of store (Bucket kw) of
        None \<Rightarrow> Inl (ObjectNotFoundError (Bucket kw))
      | Some b \<Rightarrow>
          (case Key kw of
             None \<Rightarrow> Inr []
           | Some k \<Rightarrow>
               (case map_of (fst b) k of
                  None \<Rightarrow> Inl (ObjectNotFoundError k)
                | Some h \<Rightarrow> Inr h)))"

definition example_list_objects :: "(string \<times> bucket) list \<Rightarrow> s3_kwargs \<Rightarrow> string
    \<Rightarrow> nat option \<Rightarrow> (string \<times> int header) gen" where
  "example_list_objects store kw path max_request_entries =
     (case map_of store (Bucket kw) of
        None \<Rightarrow> ([], Some (ObjectNotFoundError (Bucket kw)))
      | Some b \<Rightarrow> (filter (\<lambda>(k, h). prefix path k) (fst b), snd b))"

definition example_system :: "(string \<times> bucket) list \<Rightarrow> (s3_kwargs, int) system" where
  "example_system store =
     \<lparr>roots = [Literal ''s3://''],
      get_client_kwargs = s3_get_client_kwargs [Literal ''s3://''],
      head_impl = example_head store,
      list_locators_impl = (map (\<lambda>(name, b). (name, [])) store, None),
      list_objects_impl = example_list_objects store,
      SIZE_KEYS = [''Content-Length''],
      CTIME_KEYS = [],
      MTIME_KEYS = [''Last-Modified''],
      to_int = Inr,
      to_time = Inr\<rparr>"

text \<open>
  A raw stream on an object held in memory: a range that starts at or after the end of
  the object is answered by the client's InvalidRange error, as S3 does.
\<close>

definition example_raw_io :: "bytes \<Rightarrow> (nat \<times> nat, bytes) s3_raw_io" where
  "example_raw_io content =
     \<lparr>get_object = (\<lambda>(start, end').
        if length content \<le> start
        then Inl (ClientError ''InvalidRange'' ''The requested range is not satisfiable'')
        else Inr (if end' = 0 then drop start content
                  else take (end' - start) (drop start content))),
      read_body = Inr,
      http_range = (\<lambda>start end'. (start, end'))\<rparr>"

text \<open>
  A client whose part uploads fail with a server error for the part numbers in
  \<open>failing\<close> and return the body as ETag otherwise.
\<close>

definition example_client :: "nat list \<Rightarrow> s3_client" where
  "example_client failing =
     \<lparr>create_multipart_upload = Inr ''upload-1'',
      upload_part = (\<lambda>n body.
        if n \<in> set failing then Inl (ClientError ''InternalError'' ''upload failed'')
        else Inr body),
      complete_multipart_upload = (\<lambda>upload_id parts. None)\<rparr>"

text \<open>
  A raw stream whose object cannot be read: every request is answered by AccessDenied.
\<close>

definition example_denied_io :: "(nat \<times> nat, bytes) s3_raw_io" where
  "example_denied_io =
     \<lparr>get_object = (\<lambda>r. Inl (ClientError ''AccessDenied'' ''Access Denied'')),
      read_body = Inr,
      http_range = (\<lambda>start end'. (start, end'))\<rparr>"

text \<open>
  A client's \<open>list_objects_v2\<close> under a prefix without any object: the response has
  neither \<open>Contents\<close> nor a continuation token.
\<close>

definition example_empty_listing :: "string \<Rightarrow> s3_kwargs \<Rightarrow> error + int s3_page" where
  "example_empty_listing path kw = Inr \<lparr>Contents = None, NextContinuationToken = None\<rparr>"

section \<open>Path resolution\<close>

lemma split_once_append: "split_once sep s = Some (a, b) \<Longrightarrow> s = a @ sep @ b"
proof (induction s arbitrary: a)
  case Nil
  then show ?case by (auto split: if_splits)
next
  case (Cons c cs)
  show ?case
  proof (cases "prefix sep (c # cs)")
    case True
    then obtain r where r: "c # cs = sep @ r" by (auto simp: prefix_def)
    have d: "drop (length sep) (c # cs) = r" by (simp only: r) simp
    from True Cons.prems have "a = []" "b = drop (length sep) (c # cs)" by auto
    with d r show ?thesis by simp
  next
    case False
    with Cons.prems obtain a' where "split_once sep cs = Some (a', b)" "a = c # a'"
      by auto
    with Cons.IH show ?thesis by auto
  qed
qed

lemma split_once_minimal:
  "split_once sep s = Some (a, b) \<Longrightarrow> s = a' @ sep @ b' \<Longrightarrow> length a \<le> length a'"
proof (induction s arbitrary: a a')
  case Nil
  then show ?case by (auto split: if_splits)
next
  case (Cons c cs)
  show ?case
  proof (cases "prefix sep (c # cs)")
    case True
    with Cons.prems(1) show ?thesis by auto
  next
    case False
    with Cons.prems(1) obtain a0 where a0: "split_once sep cs = Some (a0, b)" "a = c # a0"
      by auto
    have "a' \<noteq> []"
      using False Cons.prems(2) by (auto simp: prefix_def)
    then obtain a'' where a'': "a' = c # a''" "cs = a'' @ sep @ b'"
      using Cons.prems(2) by (cases a') auto
    from Cons.IH [OF a0(1) a''(2)] show ?thesis by (simp add: a0(2) a''(1))
  qed
qed

lemma split_once_None_iff:
  "sep \<noteq> [] \<Longrightarrow> split_once sep s = None \<longleftrightarrow> \<not> sublist sep s"
proof (induction s)
  case Nil
  then show ?case by simp
next
  case (Cons c cs)
  show ?case
  proof (cases "prefix sep (c # cs)")
    case True
    then show ?thesis by (auto simp: sublist_Cons_right)
  next
    case False
    then show ?thesis using Cons by (auto simp: sublist_Cons_right)
  qed
qed

lemma split_once_first:
  assumes "sep \<noteq> []" and "s = a @ sep @ b"
    and "\<forall>a' b'. s = a' @ sep @ b' \<longrightarrow> length a \<le> length a'"
  shows "split_once sep s = Some (a, b)"
proof -
  have "sublist sep s" using assms(2) by (auto simp: sublist_def)
  then obtain a0 b0 where sp: "split_once sep s = Some (a0, b0)"
    using split_once_None_iff [OF assms(1), of s] by (cases "split_once sep s") auto
  have s0: "s = a0 @ sep @ b0" by (rule split_once_append [OF sp])
  have "length a0 \<le> length a" by (rule split_once_minimal [OF sp assms(2)])
  moreover have "length a \<le> length a0" using assms(3) s0 by blast
  ultimately have "length a0 = length a" by simp
  with s0 assms(2) have "a0 = a \<and> b0 = b" by auto
  with sp show ?thesis by simp
qed

lemma root_absent_split: "root_absent root p \<longleftrightarrow> root_split root p = Inr None"
  by (cases root) (auto simp: split_once_None_iff)

lemma relpath_unmatched:
  "\<forall>r\<in>set rs. root_split r p = Inr None \<Longrightarrow> relpath_roots rs p = Inr p"
  by (induction rs) auto

lemma relpath_first_match:
  "\<forall>r\<in>set pre. root_split r p = Inr None \<Longrightarrow> root_split r p = Inr (Some rest)
    \<Longrightarrow> relpath_roots (pre @ r # post) p = Inr (dropWhile is_sep rest)"
  by (induction pre) (auto simp: lstrip_def)

lemma relpath_fixed_point:
  "\<forall>root\<in>set rs. \<exists>r. root = Literal r \<Longrightarrow>
   relpath_roots rs q = Inr q \<longleftrightarrow> (\<forall>root\<in>set rs. root_absent root q)"
proof (induction rs)
  case Nil
  then show ?case by simp
next
  case (Cons root rs)
  then obtain r where r: "root = Literal r" by auto
  have ih: "relpath_roots rs q = Inr q \<longleftrightarrow> (\<forall>root\<in>set rs. root_absent root q)"
    using Cons by simp
  show ?case
  proof (cases "r = []")
    case True
    then show ?thesis by (simp add: r)
  next
    case False
    show ?thesis
    proof (cases "split_once r q")
      case None
      then have "\<not> sublist r q" using split_once_None_iff [OF False] by simp
      then show ?thesis using None False ih by (simp add: r)
    next
      case (Some ab)
      obtain a b where ab: "ab = (a, b)" by (cases ab)
      have q: "q = a @ r @ b" using Some ab split_once_append by blast
      have "length (lstrip b) \<le> length b"
        by (simp add: lstrip_def length_dropWhile_le)
      also have "\<dots> < length q" using q False by (simp add: length_append)
      finally have ne: "lstrip b \<noteq> q" by auto
      have "sublist r q" using q by (auto simp: sublist_def)
      then show ?thesis using Some ab False ne by (simp add: r)
    qed
  qed
qed

text \<open>
  Claim C9, as the code has it.  A path from which every configured root is absent is
  returned unchanged.  A literal root is looked for anywhere in the path, not only at
  its start: when it occurs, and the roots before it are absent, the result is the
  text after its leftmost occurrence with the leading separators dropped and nothing
  else changed, so trailing separators stay; a pattern gives the text after its first
  match in the same way.  With literal roots only, resolving a path gives the path
  back exactly when every configured root is absent from it: resolving the result of
  \<open>relpath\<close> again changes nothing if and only if no configured root occurs in that
  result.
\<close>

theorem relpath_resolution:
  "((\<forall>root\<in>set (roots sys). root_absent root p) \<longrightarrow> relpath sys p = Inr p) \<and>
   (roots sys = pre @ Literal r # post \<and> (\<forall>root\<in>set pre. root_absent root p) \<and>
      r \<noteq> [] \<and> p = before @ r @ rest \<and>
      (\<forall>a b. p = a @ r @ b \<longrightarrow> length before \<le> length a)
      \<longrightarrow> relpath sys p = Inr (dropWhile is_sep rest)) \<and>
   (roots sys = pre @ Pattern f # post \<and> (\<forall>root\<in>set pre. root_absent root p) \<and>
      f p = Some rest
      \<longrightarrow> relpath sys p = Inr (dropWhile is_sep rest)) \<and>
   ((\<forall>root\<in>set (roots sys). \<exists>r. root = Literal r) \<longrightarrow>
      (relpath sys q = Inr q \<longleftrightarrow> (\<forall>root\<in>set (roots sys). root_absent root q)))"
proof (intro conjI impI)
  assume "\<forall>root\<in>set (roots sys). root_absent root p"
  then show "relpath sys p = Inr p"
    by (simp add: relpath_def relpath_unmatched root_absent_split)
next
  assume a: "roots sys = pre @ Literal r # post \<and> (\<forall>root\<in>set pre. root_absent root p) \<and>
      r \<noteq> [] \<and> p = before @ r @ rest \<and>
      (\<forall>a b. p = a @ r @ b \<longrightarrow> length before \<le> length a)"
  then have "split_once r p = Some (before, rest)"
    by (intro split_once_first) auto
  then have "root_split (Literal r) p = Inr (Some rest)" using a by simp
  moreover have "\<forall>r\<in>set pre. root_split r p = Inr None"
    using a root_absent_split by blast
  ultimately show "relpath sys p = Inr (dropWhile is_sep rest)"
    using a relpath_first_match [of pre p "Literal r" rest post] by (simp add: relpath_def)
next
  assume a: "roots sys = pre @ Pattern f # post \<and> (\<forall>root\<in>set pre. root_absent root p) \<and>
      f p = Some rest"
  then have "root_split (Pattern f) p = Inr (Some rest)" by simp
  moreover have "\<forall>r\<in>set pre. root_split r p = Inr None"
    using a root_absent_split by blast
  ultimately show "relpath sys p = Inr (dropWhile is_sep rest)"
    using a relpath_first_match [of pre p "Pattern f" rest post] by (simp add: relpath_def)
next
  assume "\<forall>root\<in>set (roots sys). \<exists>r. root = Literal r"
  then show "relpath sys q = Inr q \<longleftrightarrow> (\<forall>root\<in>set (roots sys). root_absent root q)"
    unfolding relpath_def by (rule relpath_fixed_point)
qed

theorem relpath_resolution_witness:
  "relpath (example_system []) ''/tmp/file/'' = Inr ''/tmp/file/'' \<and>
   relpath (example_system []) ''http://host/s3:///bucket/dir//'' = Inr ''bucket/dir//'' \<and>
   relpath (example_system []) ''bucket/dir//'' = Inr ''bucket/dir//'' \<and>
   relpath (example_system []\<lparr>roots := [Pattern (\<lambda>p. if p = ''x'' then Some ''/y/'' else None)]\<rparr>) ''x''
     = Inr ''y/''"
proof -
  let ?s = "example_system [] :: (s3_kwargs, int) system"
  have r: "roots ?s = [] @ Literal ''s3://'' # []" by (simp add: example_system_def)
  have ne: "''s3://'' \<noteq> []" by simp
  have n1: "split_once ''s3://'' ''/tmp/file/'' = None" by simp
  have n2: "split_once ''s3://'' ''bucket/dir//'' = None" by simp
  have s1: "split_once ''s3://'' ''http://host/s3:///bucket/dir//''
      = Some (''http://host/'', ''/bucket/dir//'')" by simp
  have a1: "\<forall>root\<in>set (roots ?s). root_absent root ''/tmp/file/''"
    using split_once_None_iff [OF ne, of "''/tmp/file/''"] n1 by (simp add: example_system_def)
  have a2: "\<forall>root\<in>set (roots ?s). root_absent root ''bucket/dir//''"
    using split_once_None_iff [OF ne, of "''bucket/dir//''"] n2 by (simp add: example_system_def)
  have lit: "\<forall>root\<in>set (roots ?s). \<exists>r. root = Literal r" by (simp add: example_system_def)
  have first: "\<forall>a b. ''http://host/s3:///bucket/dir//'' = a @ ''s3://'' @ b \<longrightarrow>
      length ''http://host/'' \<le> length a"
    using split_once_minimal [OF s1] by blast
  have "relpath ?s ''/tmp/file/'' = Inr ''/tmp/file/''"
    using relpath_resolution [of ?s "''/tmp/file/''", THEN conjunct1] a1 by simp
  moreover have "relpath ?s ''http://host/s3:///bucket/dir//'' = Inr ''bucket/dir//''"
    using relpath_resolution [of ?s "''http://host/s3:///bucket/dir//''" "[]" "''s3://''" "[]"
        "''http://host/''" "''/bucket/dir//''", THEN conjunct2, THEN conjunct1] r first
    by (simp add: is_sep_def)
  moreover have "relpath ?s ''bucket/dir//'' = Inr ''bucket/dir//''"
    using relpath_resolution [of ?s _ _ _ _ _ _ _ "''bucket/dir//''",
        THEN conjunct2, THEN conjunct2, THEN conjunct2] lit a2 by simp
  moreover have "relpath (?s\<lparr>roots := [Pattern (\<lambda>p. if p = ''x'' then Some ''/y/'' else None)]\<rparr>) ''x''
     = Inr ''y/''"
    using relpath_resolution [where sys = "?s\<lparr>roots := [Pattern (\<lambda>p. if p = ''x'' then Some ''/y/'' else None)]\<rparr>"
        and p = "''x''" and pre = "[]" and post = "[]" and rest = "''/y/''"
        and f = "\<lambda>p. if p = ''x'' then Some ''/y/'' else None",
        THEN conjunct2, THEN conjunct2, THEN conjunct1]
    by (simp add: is_sep_def)
  ultimately show ?thesis by simp
qed

text \<open>
  The claim's idempotence fails where the key of an object contains a root: with the
  single root \<open>s3://\<close>, the path \<open>s3://bucket/backup/s3://other\<close> resolves to
  \<open>bucket/backup/s3://other\<close>, and that resolves to \<open>other\<close>.
\<close>

theorem relpath_idempotence_counterexample:
  "relpath (example_system []) ''s3://bucket/backup/s3://other'' = Inr ''bucket/backup/s3://other''
   \<and> relpath (example_system []) ''bucket/backup/s3://other'' = Inr ''other''"
  by (simp add: relpath_def example_system_def lstrip_def is_sep_def)

section \<open>Files and listings\<close>

lemmas ex_simps = example_system_def example_head_def example_list_objects_def
  s3_get_client_kwargs_def relpath_def split_locator_def lstrip_def rstrip_def strip_def is_sep_def
  is_locator_rel_def is_locator_def


text \<open>
  Claim C8 at the path \<open>s3://bucket\<close> of an existing bucket.  Its relative form
  \<open>bucket\<close> is a locator, so the claim has \<open>isfile\<close> return false; \<open>isfile\<close>
  tests \<open>is_locator\<close> on the path as given, with \<open>relative=True\<close>, finds the
  separators of the root in it and returns the result of the existence check, true.
\<close>

theorem isfile_locator_url:
  "relpath (example_system [(''bucket'', ([], None))]) ''s3://bucket'' = Inr ''bucket'' \<and>
   is_locator (example_system [(''bucket'', ([], None))]) ''s3://bucket'' False = Inr True \<and>
   isfile (example_system [(''bucket'', ([], None))]) ''s3://bucket'' None = Inr True"
  by (simp add: isfile_def exists_def head_def ex_simps)


text \<open>
  Claim C7 at a path without entries.  \<open>list_objects\<close> of the base class ends
  without an item and without an exception when the backend yields no entry, and
  \<open>_list_objects\<close> of S3 raises KeyError on a response without \<open>Contents\<close>;
  neither raises ObjectNotFoundError.
\<close>

theorem list_objects_no_entries:
  "list_objects (example_system [(''bucket'', ([(''dir/file.txt'', [])], None))])
     ''bucket/dir_not_exists/'' False False None = ([], None) \<and>
   s3_list_objects example_empty_listing
     \<lparr>Bucket = ''bucket'', Key = None, ContinuationToken = None\<rparr> ''dir_not_exists/''
     = Some ([], Some (KeyError ''Contents''))"
  by (simp add: list_objects_def ex_simps s3_list_objects.simps example_empty_listing_def)


section \<open>Raw reads\<close>

lemma handle_client_error_Inl: "\<exists>e'. handle_client_error (Inl e) = Inl e'"
  by (cases e) (auto simp: ERROR_CODES_def)

text \<open>
  Claim C4.  Where the backend answers a range that starts at or after the end of the
  object with its InvalidRange error, \<open>_read_range\<close> from such a start returns the
  empty byte string.  Any other exception of the client comes out of \<open>_read_range\<close>
  as an exception: the one of the shared taxonomy for the codes of \<open>_ERROR_CODES\<close>,
  itself otherwise.  When the client answers, the result is the read of the body.
\<close>

theorem read_range_out_of_range:
  "((\<forall>s e. length content \<le> s \<longrightarrow>
        (\<exists>m. get_object io (http_range io s e) = Inl (ClientError ''InvalidRange'' m))) \<and>
      length content \<le> start
      \<longrightarrow> read_range io start end' = Inr []) \<and>
   (get_object io (http_range io start end') = Inl err \<and>
      (\<forall>m. err \<noteq> ClientError ''InvalidRange'' m)
      \<longrightarrow> read_range io start end' = handle_client_error (Inl err) \<and>
          (\<exists>e'. read_range io start end' = Inl e')) \<and>
   (get_object io (http_range io start end') = Inr resp
      \<longrightarrow> read_range io start end' = read_body io resp)"
proof (intro conjI impI)
  assume h: "(\<forall>s e. length content \<le> s \<longrightarrow>
        (\<exists>m. get_object io (http_range io s e) = Inl (ClientError ''InvalidRange'' m))) \<and>
      length content \<le> start"
  then obtain m where "get_object io (http_range io start end') = Inl (ClientError ''InvalidRange'' m)"
    by blast
  then show "read_range io start end' = Inr []"
    by (simp add: read_range_def ERROR_CODES_def)
next
  assume h: "get_object io (http_range io start end') = Inl err \<and>
      (\<forall>m. err \<noteq> ClientError ''InvalidRange'' m)"
  then show eq: "read_range io start end' = handle_client_error (Inl err)"
    by (cases err) (auto simp: read_range_def ERROR_CODES_def)
  show "\<exists>e'. read_range io start end' = Inl e'"
    using eq handle_client_error_Inl [of err] by simp
next
  assume "get_object io (http_range io start end') = Inr resp"
  then show "read_range io start end' = read_body io resp"
    by (simp add: read_range_def)
qed

theorem read_range_out_of_range_witness:
  "read_range (example_raw_io ''hello'') 5 0 = Inr [] \<and>
   read_range (example_raw_io ''hello'') 7 9 = Inr [] \<and>
   read_range example_denied_io 0 0 = Inl (ObjectPermissionError ''Access Denied'')"
proof -
  have eof: "\<forall>s e. length ''hello'' \<le> s \<longrightarrow>
      (\<exists>m. get_object (example_raw_io ''hello'') (http_range (example_raw_io ''hello'') s e)
         = Inl (ClientError ''InvalidRange'' m))"
    by (simp add: example_raw_io_def)
  have denied: "get_object example_denied_io (http_range example_denied_io 0 0)
      = Inl (ClientError ''AccessDenied'' ''Access Denied'')"
    by (simp add: example_denied_io_def)
  have "read_range (example_raw_io ''hello'') 5 0 = Inr []"
    using read_range_out_of_range [of "''hello''" "example_raw_io ''hello''" 5 0, THEN conjunct1] eof
    by simp
  moreover have "read_range (example_raw_io ''hello'') 7 9 = Inr []"
    using read_range_out_of_range [of "''hello''" "example_raw_io ''hello''" 7 9, THEN conjunct1] eof
    by simp
  moreover have "read_range example_denied_io 0 0 = Inl (ObjectPermissionError ''Access Denied'')"
    using read_range_out_of_range [of _ example_denied_io 0 0
        "ClientError ''AccessDenied'' ''Access Denied''", THEN conjunct2] denied
    by (simp add: ERROR_CODES_def)
  ultimately show ?thesis by simp
qed

section \<open>Buffered writes\<close>

lemma await_parts_all_ok:
  "\<forall>p\<in>set ps. \<exists>t. response p = Inr t \<Longrightarrow>
   await_parts ps = (map PartNumber ps, Inr (map (\<lambda>p. (PartNumber p, projr (response p))) ps))"
  by (induction ps) auto

lemma await_parts_first_failure:
  "\<forall>p\<in>set pre. \<exists>t. response p = Inr t \<Longrightarrow> response q = Inl e \<Longrightarrow>
   await_parts (pre @ q # post) = (map PartNumber pre @ [PartNumber q], Inl e)"
  by (induction pre) auto

lemma flush_futures:
  "flush client b io = Inr io' \<Longrightarrow>
   write_futures io' = write_futures io @
     [\<lparr>PartNumber = seek io, response = upload_part client (seek io) b\<rparr>] \<and>
   seek io' = seek io \<and> UploadId io' \<noteq> None"
  by (auto simp: flush_def split: option.splits sum.splits)

lemma write_parts_futures:
  "write_parts client bs io = Inr io' \<Longrightarrow>
   write_futures io' = write_futures io @
     map (\<lambda>(i, b). \<lparr>PartNumber = seek io + Suc i,
                    response = upload_part client (seek io + Suc i) b\<rparr>) (enumerate 0 bs) \<and>
   (bs \<noteq> [] \<longrightarrow> UploadId io' \<noteq> None) \<and> (bs = [] \<longrightarrow> io' = io)"
proof (induction bs arbitrary: io)
  case Nil
  then show ?case by simp
next
  case (Cons b bs)
  then obtain io1 where f: "flush client b (io\<lparr>seek := Suc (seek io)\<rparr>) = Inr io1"
    and w: "write_parts client bs io1 = Inr io'"
    by (auto split: sum.splits)
  from flush_futures [OF f] have f1: "write_futures io1 = write_futures io @
     [\<lparr>PartNumber = Suc (seek io), response = upload_part client (Suc (seek io)) b\<rparr>]"
    and s1: "seek io1 = Suc (seek io)" and u1: "UploadId io1 \<noteq> None"
    by simp_all
  from Cons.IH [OF w] have ih: "write_futures io' = write_futures io1 @
     map (\<lambda>(i, b). \<lparr>PartNumber = seek io1 + Suc i,
                    response = upload_part client (seek io1 + Suc i) b\<rparr>) (enumerate 0 bs)"
    and u: "bs \<noteq> [] \<longrightarrow> UploadId io' \<noteq> None" and e: "bs = [] \<longrightarrow> io' = io1"
    by simp_all
  have "UploadId io' \<noteq> None" using u e u1 by (cases "bs = []") auto
  then show ?case
    using ih f1 s1 by (simp add: enumerate_Suc_eq comp_def case_prod_beta)
qed


lemma await_parts_completes:
  "(\<exists>d. snd (await_parts ps) = Inr d) \<longleftrightarrow> (\<forall>p\<in>set ps. \<exists>t. response p = Inr t)"
  by (induction ps) (auto split: sum.splits prod.splits)

lemma await_parts_prefix:
  assumes "k < length ps" "response (ps ! k) = Inl e"
    "\<forall>j<k. \<exists>t. response (ps ! j) = Inr t"
  shows "await_parts ps = (take (Suc k) (map PartNumber ps), Inl e)"
proof -
  have ps: "ps = take k ps @ ps ! k # drop (Suc k) ps"
    using assms(1) by (simp add: id_take_nth_drop)
  have ok: "\<forall>p\<in>set (take k ps). \<exists>t. response p = Inr t"
    using assms(1,3) by (auto simp: in_set_conv_nth)
  have "await_parts (take k ps @ ps ! k # drop (Suc k) ps)
      = (map PartNumber (take k ps) @ [PartNumber (ps ! k)], Inl e)"
    by (rule await_parts_first_failure [OF ok assms(2)])
  moreover have "map PartNumber (take k ps) @ [PartNumber (ps ! k)] = take (Suc k) (map PartNumber ps)"
    using assms(1) by (simp add: take_Suc_conv_app_nth take_map)
  ultimately show ?thesis using ps by simp
qed

lemma write_parts_numbers:
  assumes "write_parts client buffers new_stream = Inr io"
  shows "map PartNumber (write_futures io) = [1..<Suc (length buffers)]"
    and "\<forall>k<length buffers.
           response (write_futures io ! k) = upload_part client (Suc k) (buffers ! k)"
    and "buffers \<noteq> [] \<longrightarrow> UploadId io \<noteq> None"
proof -
  from write_parts_futures [OF assms]
  have wf: "write_futures io = map (\<lambda>(i, b). \<lparr>PartNumber = Suc i,
                    response = upload_part client (Suc i) b\<rparr>) (enumerate 0 buffers)"
    and up: "buffers \<noteq> [] \<longrightarrow> UploadId io \<noteq> None"
    by (simp_all add: new_stream_def)
  have "map PartNumber (write_futures io) = map (Suc \<circ> fst) (enumerate 0 buffers)"
    by (simp add: wf comp_def case_prod_beta)
  also have "\<dots> = map Suc (map fst (enumerate 0 buffers))"
    by (simp only: map_map)
  also have "\<dots> = map Suc [0..<length buffers]"
    by (simp only: map_fst_enumerate add_0)
  also have "\<dots> = [1..<Suc (length buffers)]"
    by (simp only: map_Suc_upt One_nat_def)
  finally show "map PartNumber (write_futures io) = [1..<Suc (length buffers)]" .
  show "\<forall>k<length buffers.
           response (write_futures io ! k) = upload_part client (Suc k) (buffers ! k)"
    by (simp add: wf nth_enumerate_eq)
  show "buffers \<noteq> [] \<longrightarrow> UploadId io \<noteq> None" by (rule up)
qed

text \<open>
  Claim C1, as the code has it.  After the buffers of a stream were dispatched as parts
  1 to n, the parts are held in dispatch order with these numbers.  If every upload
  succeeded, \<open>_close_writable\<close> waits for all of them and issues the completion call
  with the parts in that order.  If part k + 1 is the first whose upload failed, it
  waits for the parts 1 to k + 1 only, raises the exception of that part at once and
  issues no completion call; the parts dispatched after it are not waited for.  The
  completion call is issued exactly when every upload succeeded.
\<close>

theorem close_writable_after_dispatch:
  assumes "write_parts client buffers new_stream = Inr io" and "buffers \<noteq> []"
  shows "map PartNumber (write_futures io) = [1..<Suc (length buffers)] \<and>
    ((\<forall>p\<in>set (write_futures io). \<exists>t. response p = Inr t) \<longrightarrow>
       awaited (close_writable client io) = [1..<Suc (length buffers)] \<and>
       (\<exists>upload_id. completed (close_writable client io) =
          Some (upload_id, map (\<lambda>p. (PartNumber p, projr (response p))) (write_futures io)))) \<and>
    (\<forall>k e. k < length buffers \<and> response (write_futures io ! k) = Inl e \<and>
        (\<forall>j<k. \<exists>t. response (write_futures io ! j) = Inr t) \<longrightarrow>
       awaited (close_writable client io) = [1..<k + 2] \<and>
       completed (close_writable client io) = None \<and>
       raised (close_writable client io) = Some e) \<and>
    (completed (close_writable client io) \<noteq> None \<longleftrightarrow>
       (\<forall>p\<in>set (write_futures io). \<exists>t. response p = Inr t))"
proof -
  note nums = write_parts_numbers [OF assms(1)]
  have len: "length (write_futures io) = length buffers"
    using nums(1) by (metis length_map length_upt diff_Suc_1)
  obtain upload_id where uid: "UploadId io = Some upload_id"
    using nums(3) assms(2) by auto
  have all_ok: "awaited (close_writable client io) = [1..<Suc (length buffers)] \<and>
       (\<exists>upload_id. completed (close_writable client io) =
          Some (upload_id, map (\<lambda>p. (PartNumber p, projr (response p))) (write_futures io)))"
    if "\<forall>p\<in>set (write_futures io). \<exists>t. response p = Inr t"
    using await_parts_all_ok [OF that] uid nums(1) by (simp add: close_writable_def)
  have failing: "awaited (close_writable client io) = [1..<k + 2] \<and>
       completed (close_writable client io) = None \<and>
       raised (close_writable client io) = Some e"
    if "k < length buffers \<and> response (write_futures io ! k) = Inl e \<and>
        (\<forall>j<k. \<exists>t. response (write_futures io ! j) = Inr t)" for k e
  proof -
    have "await_parts (write_futures io) = (take (Suc k) (map PartNumber (write_futures io)), Inl e)"
      using that len by (intro await_parts_prefix) auto
    moreover have "take (Suc k) [1..<Suc (length buffers)] = [1..<1 + Suc k]"
      by (rule take_upt) (use that in simp)
    moreover have "1 + Suc k = k + 2" by simp
    ultimately show ?thesis by (simp only: close_writable_def nums(1)) simp
  qed
  have iff: "completed (close_writable client io) \<noteq> None \<longleftrightarrow>
       (\<forall>p\<in>set (write_futures io). \<exists>t. response p = Inr t)"
    using await_parts_completes [of "write_futures io"] uid
    by (cases "await_parts (write_futures io)")
       (auto simp: close_writable_def split: sum.splits)
  show ?thesis using nums(1) all_ok failing iff by blast
qed

lemmas s3_write_simps = flush_def new_stream_def example_client_def
  close_writable_def ERROR_CODES_def

theorem close_writable_after_dispatch_witness:
  "awaited (close_writable (example_client [])
      \<lparr>UploadId = Some ''upload-1'', seek = 2,
        write_futures = [\<lparr>PartNumber = 1, response = Inr ''a''\<rparr>,
                         \<lparr>PartNumber = 2, response = Inr ''b''\<rparr>]\<rparr>) = [1, 2] \<and>
   raised (close_writable (example_client [2])
      \<lparr>UploadId = Some ''upload-1'', seek = 3,
        write_futures = [\<lparr>PartNumber = 1, response = Inr ''a''\<rparr>,
                         \<lparr>PartNumber = 2,
                          response = Inl (ClientError ''InternalError'' ''upload failed'')\<rparr>,
                         \<lparr>PartNumber = 3, response = Inr ''c''\<rparr>]\<rparr>) =
     Some (ClientError ''InternalError'' ''upload failed'')"
proof -
  have w: "write_parts (example_client []) [''a'', ''b''] new_stream =
      Inr \<lparr>UploadId = Some ''upload-1'', seek = 2,
        write_futures = [\<lparr>PartNumber = 1, response = Inr ''a''\<rparr>,
                         \<lparr>PartNumber = 2, response = Inr ''b''\<rparr>]\<rparr>"
    by (simp add: s3_write_simps)
  have ne: "[''a'', ''b''] \<noteq> ([] :: bytes list)" by simp
  have w': "write_parts (example_client [2]) [''a'', ''b'', ''c''] new_stream =
      Inr \<lparr>UploadId = Some ''upload-1'', seek = 3,
        write_futures = [\<lparr>PartNumber = 1, response = Inr ''a''\<rparr>,
                         \<lparr>PartNumber = 2,
                          response = Inl (ClientError ''InternalError'' ''upload failed'')\<rparr>,
                         \<lparr>PartNumber = 3, response = Inr ''c''\<rparr>]\<rparr>"
    by (simp add: s3_write_simps)
  have ne': "[''a'', ''b'', ''c''] \<noteq> ([] :: bytes list)" by simp
  from close_writable_after_dispatch [OF w ne]
  have ok: "awaited (close_writable (example_client [])
      \<lparr>UploadId = Some ''upload-1'', seek = 2,
        write_futures = [\<lparr>PartNumber = 1, response = Inr ''a''\<rparr>,
                         \<lparr>PartNumber = 2, response = Inr ''b''\<rparr>]\<rparr>) = [1, 2]"
    by (simp add: upt_rec)
  from close_writable_after_dispatch [OF w' ne', THEN conjunct2, THEN conjunct2,
      THEN conjunct1, rule_format, of 1 "ClientError ''InternalError'' ''upload failed''"]
  have "raised (close_writable (example_client [2])
      \<lparr>UploadId = Some ''upload-1'', seek = 3,
        write_futures = [\<lparr>PartNumber = 1, response = Inr ''a''\<rparr>,
                         \<lparr>PartNumber = 2,
                          response = Inl (ClientError ''InternalError'' ''upload failed'')\<rparr>,
                         \<lparr>PartNumber = 3, response = Inr ''c''\<rparr>]\<rparr>) =
     Some (ClientError ''InternalError'' ''upload failed'')"
    by simp
  with ok show ?thesis by simp
qed

text \<open>
  The claim has \<open>close\<close> wait for every dispatched part before it raises.  With
  three parts dispatched and the upload of part 2 failing, \<open>_close_writable\<close> waits
  for the parts 1 and 2 and raises; part 3 is not waited for.
\<close>

theorem close_writable_counterexample:
  "write_parts (example_client [2]) [''a'', ''b'', ''c''] new_stream =
      Inr \<lparr>UploadId = Some ''upload-1'', seek = 3,
        write_futures = [\<lparr>PartNumber = 1, response = Inr ''a''\<rparr>,
                         \<lparr>PartNumber = 2,
                          response = Inl (ClientError ''InternalError'' ''upload failed'')\<rparr>,
                         \<lparr>PartNumber = 3, response = Inr ''c''\<rparr>]\<rparr> \<and>
   close_writable (example_client [2])
      \<lparr>UploadId = Some ''upload-1'', seek = 3,
        write_futures = [\<lparr>PartNumber = 1, response = Inr ''a''\<rparr>,
                         \<lparr>PartNumber = 2,
                          response = Inl (ClientError ''InternalError'' ''upload failed'')\<rparr>,
                         \<lparr>PartNumber = 3, response = Inr ''c''\<rparr>]\<rparr> =
      \<lparr>awaited = [1, 2], completed = None,
        raised = Some (ClientError ''InternalError'' ''upload failed'')\<rparr>"
  by (simp add: s3_write_simps)

section \<open>Listing from the root\<close>

lemma list_root_append:
  "snd (list_root sys m pre None) = None \<Longrightarrow>
   list_root sys m (pre @ rest) lerr =
     gen_append (fst (list_root sys m pre None)) (list_root sys m rest lerr)"
proof (induction pre)
  case Nil
  then show ?case by (simp add: gen_append_def)
next
  case (Cons l pre)
  obtain loc_path loc_header where l: "l = (loc_path, loc_header)" by (cases l)
  from Cons.prems have "snd (list_root sys m pre None) = None"
    by (auto simp: l Let_def gen_append_def split: sum.splits option.splits if_splits)
  from Cons.IH [OF this] Cons.prems show ?case
    by (auto simp: l Let_def gen_append_def split: sum.splits option.splits if_splits)
qed

lemma list_root_first:
  "\<exists>items. fst (list_root sys m ((loc_path, loc_header) # rest) lerr)
     = (rstrip loc_path, loc_header) # items"
  by (auto simp: Let_def gen_append_def split: sum.splits option.splits)

text \<open>
  Claim C6.  In a listing from the root without \<open>first_level\<close>, take a locator
  that is reached (the enumeration of the locators before it ended without an
  exception) and whose own listing ends with an exception after yielding some objects.
  The locator and these objects are yielded in any case.  If the exception is
  ObjectPermissionError it is swallowed: the listing goes on with the remaining
  locators, so the next locator is yielded.  Any other exception ends the listing and
  reaches the caller.
\<close>

theorem list_objects_root_permission:
  assumes "relpath sys path = Inr []"
    and "list_locators_impl sys = (pre @ (loc_path, loc_header) # post, lerr)"
    and "snd (list_root sys m pre None) = None"
    and "get_client_kwargs sys (rstrip loc_path) = Inr kw"
    and "list_objects_impl sys kw [] m = (objs, Some e)"
  shows "(is_permission e \<longrightarrow>
           list_objects sys path False False m =
             gen_append
               (fst (list_root sys m pre None) @
                (rstrip loc_path, loc_header) #
                map (\<lambda>(obj_path, obj_header).
                       (rstrip loc_path @ ''/'' @ lstrip obj_path, obj_header)) objs)
               (list_root sys m post lerr) \<and>
           (\<forall>next_path next_header rest. post = (next_path, next_header) # rest \<longrightarrow>
              (rstrip next_path, next_header) \<in> set (fst (list_objects sys path False False m)))) \<and>
         (\<not> is_permission e \<longrightarrow>
           list_objects sys path False False m =
             (fst (list_root sys m pre None) @
              (rstrip loc_path, loc_header) #
              map (\<lambda>(obj_path, obj_header).
                     (rstrip loc_path @ ''/'' @ lstrip obj_path, obj_header)) objs,
              Some e))"
proof -
  have lo: "list_objects sys path False False m =
      gen_append (fst (list_root sys m pre None))
        (list_root sys m ((loc_path, loc_header) # post) lerr)"
    using assms(1,2) list_root_append [OF assms(3)]
    by (simp add: list_objects_def)
  show ?thesis
  proof (intro conjI impI allI)
    assume p: "is_permission e"
    then show eq: "list_objects sys path False False m =
             gen_append
               (fst (list_root sys m pre None) @
                (rstrip loc_path, loc_header) #
                map (\<lambda>(obj_path, obj_header).
                       (rstrip loc_path @ ''/'' @ lstrip obj_path, obj_header)) objs)
               (list_root sys m post lerr)"
      using assms(4,5) by (simp add: lo Let_def gen_append_def)
    fix next_path next_header rest
    assume "post = (next_path, next_header) # rest"
    then show "(rstrip next_path, next_header) \<in> set (fst (list_objects sys path False False m))"
      using list_root_first [of sys m next_path next_header rest lerr]
      by (auto simp: eq gen_append_def)
  next
    assume "\<not> is_permission e"
    then show "list_objects sys path False False m =
             (fst (list_root sys m pre None) @
              (rstrip loc_path, loc_header) #
              map (\<lambda>(obj_path, obj_header).
                     (rstrip loc_path @ ''/'' @ lstrip obj_path, obj_header)) objs,
              Some e)"
      using assms(4,5) by (simp add: lo Let_def gen_append_def)
  qed
qed

theorem list_objects_root_permission_witness:
  "list_objects
     (example_system [(''b1'', ([(''x'', [])], Some (ObjectPermissionError ''denied''))),
                      (''b2'', ([(''y'', [])], None))]) ''s3://'' False False None =
     ([(''b1'', []), (''b1/x'', []), (''b2'', []), (''b2/y'', [])], None) \<and>
   list_objects
     (example_system [(''b1'', ([(''x'', [])], Some (OtherError ''server error''))),
                      (''b2'', ([(''y'', [])], None))]) ''s3://'' False False None =
     ([(''b1'', []), (''b1/x'', [])], Some (OtherError ''server error''))"
proof -
  let ?s1 = "example_system [(''b1'', ([(''x'', [])], Some (ObjectPermissionError ''denied''))),
                      (''b2'', ([(''y'', [])], None))]"
  let ?s2 = "example_system [(''b1'', ([(''x'', [])], Some (OtherError ''server error''))),
                      (''b2'', ([(''y'', [])], None))]"
  have "list_objects ?s1 ''s3://'' False False None =
     ([(''b1'', []), (''b1/x'', []), (''b2'', []), (''b2/y'', [])], None)"
    using list_objects_root_permission [of ?s1 "''s3://''" "[]" "''b1''" "[]" "[(''b2'', [])]" None None
        "\<lparr>Bucket = ''b1'', Key = None, ContinuationToken = None\<rparr>" "[(''x'', [])]"
        "ObjectPermissionError ''denied''"]
    by (simp add: ex_simps gen_append_def)
  moreover have "list_objects ?s2 ''s3://'' False False None =
     ([(''b1'', []), (''b1/x'', [])], Some (OtherError ''server error''))"
    using list_objects_root_permission [of ?s2 "''s3://''" "[]" "''b1''" "[]" "[(''b2'', [])]" None None
        "\<lparr>Bucket = ''b1'', Key = None, ContinuationToken = None\<rparr>" "[(''x'', [])]"
        "OtherError ''server error''"]
    by (simp add: ex_simps gen_append_def)
  ultimately show ?thesis by simp
qed

section \<open>Virtual directories\<close>








section \<open>First-level listings\<close>












section \<open>Status of an object\<close>

lemma pop_None: "pop key h = None \<longleftrightarrow> key \<notin> fst ` set h"
  by (simp add: pop_def map_of_eq_None_iff)

lemma pop_Some: "pop key h = Some (v, h') \<Longrightarrow> (key, v) \<in> set h \<and> set h' \<subseteq> set h"
  by (auto simp: pop_def AList.delete_eq dest!: map_of_SomeD)

lemma getsize_keys_missing:
  "\<forall>k\<in>set keys. k \<notin> fst ` set h \<Longrightarrow>
   getsize_keys conv keys h = (Inl (UnsupportedOperation ''getsize''), h)"
  by (induction keys) (auto simp: pop_None [symmetric])

lemma get_time_missing:
  "\<forall>k\<in>set keys. k \<notin> fst ` set h \<Longrightarrow>
   get_time conv h keys name = (Inl (UnsupportedOperation name), h)"
  by (induction keys) (auto simp: pop_None [symmetric])

lemma getsize_keys_result:
  "getsize_keys conv keys h = (r, h') \<Longrightarrow>
   set h' \<subseteq> set h \<and>
   (r = Inl (UnsupportedOperation ''getsize'') \<or> (\<exists>k\<in>set keys. \<exists>v. (k, v) \<in> set h \<and> r = conv v))"
  by (induction keys) (auto split: option.splits dest!: pop_Some)

lemma get_time_result:
  "get_time conv h keys name = (r, h') \<Longrightarrow>
   set h' \<subseteq> set h \<and>
   (r = Inl (UnsupportedOperation name) \<or> (\<exists>k\<in>set keys. \<exists>v. (k, v) \<in> set h \<and> r = conv v))"
  by (induction keys) (auto split: option.splits dest!: pop_Some)

lemma populate_three:
  assumes "fa h = (ra, ha)" "fb ha = (rb, hb)" "fc hb = (rc, hc)"
  shows "populate [(ka, fa), (kb, fb), (kc, fc)] st h =
    (if caught ra \<and> caught rb \<and> caught rc
     then Inr (store_field kc rc (store_field kb rb (store_field ka ra st)), hc)
     else Inl (if \<not> caught ra then projl ra else if \<not> caught rb then projl rb else projl rc))"
  using assms by (auto simp: caught_def store_field_def split: sum.splits)

lemma add_header_keys_map_of:
  "k \<notin> attr_name ` fst ` set h \<Longrightarrow> map_of (add_header_keys h st) k = map_of st k"
  unfolding add_header_keys_def
  by (induction h arbitrary: st) (auto simp: update_conv')

lemma add_header_keys_keys: "fst ` set st \<subseteq> fst ` set (add_header_keys h st)"
  unfolding add_header_keys_def
proof (induction h arbitrary: st)
  case Nil
  then show ?case by simp
next
  case (Cons x h)
  obtain k v where x: "x = (k, v)" by (cases x)
  have "fst ` set st \<subseteq> fst ` set (AList.update (attr_name k) (StRaw v) st)"
    by (auto simp: dom_update)
  also have "\<dots> \<subseteq> fst ` set (fold (\<lambda>(key, v). AList.update (attr_name key) (StRaw v)) h
      (AList.update (attr_name k) (StRaw v) st))"
    by (rule Cons.IH)
  finally show ?case by (simp add: x)
qed

lemma store_field_keys: "fst ` set st \<subseteq> fst ` set (store_field k r st)"
  by (auto simp: store_field_def dom_update split: sum.splits)

lemma store_field_map_of:
  "map_of (store_field k r st) k' =
     (if k' = k then (case r of Inr n \<Rightarrow> Some n | Inl e \<Rightarrow> map_of st k) else map_of st k')"
  by (auto simp: store_field_def update_conv' split: sum.splits)

lemma stat_init_map_of: "k \<in> set stat_fields \<Longrightarrow> map_of stat_init k = Some 0"
  by (simp add: stat_init_def map_of_map_restrict)

text \<open>What \<open>stat\<close> computes, in terms of the outcomes of the three extractors.\<close>

lemma stat_unfold:
  assumes hd: "head sys path ck header = Inr h"
    and e1: "getsize_from_header sys h = (r1, h1)"
    and e2: "getctime_from_header sys h1 = (r2, h2)"
    and e3: "getmtime_from_header sys h2 = (r3, h3)"
    and ok: "caught r1" "caught r2" "caught r3"
    and dir: "(if path = [] then Inr True else if last path = CHR ''/'' then Inr True
               else is_locator sys path False) = Inr d"
  shows "stat sys path ck header = Inr (add_header_keys h3
           (map (\<lambda>(k, n). (k, StInt n))
              (AList.update ''st_mode''
                 (if d \<and> (case r1 of Inr n \<Rightarrow> n = 0 | Inl e \<Rightarrow> True) then S_IFDIR else S_IFREG)
                 (store_field ''st_mtime'' r3 (store_field ''st_ctime'' r2
                    (store_field ''st_size'' r1 stat_init))))))"
proof -
  have sz: "map_of (store_field ''st_mtime'' r3 (store_field ''st_ctime'' r2
                    (store_field ''st_size'' r1 stat_init))) ''st_size''
      = Some (case r1 of Inr n \<Rightarrow> n | Inl e \<Rightarrow> 0)"
    by (simp add: store_field_map_of stat_init_map_of stat_fields_def split: sum.splits)
  show ?thesis
    unfolding stat_def
    by (simp add: hd populate_three [where fa = "getsize_from_header sys"
          and fb = "getctime_from_header sys" and fc = "getmtime_from_header sys", OF e1 e2 e3]
          ok dir sz del: populate.simps split: sum.splits)
qed


lemma stat_Inr:
  assumes hd: "head sys path ck header = Inr h"
    and e1: "getsize_from_header sys h = (r1, h1)"
    and e2: "getctime_from_header sys h1 = (r2, h2)"
    and e3: "getmtime_from_header sys h2 = (r3, h3)"
    and st: "stat sys path ck header = Inr r"
  shows "caught r1 \<and> caught r2 \<and> caught r3 \<and>
    (\<exists>d. (if path = [] then Inr True else if last path = CHR ''/'' then Inr True
           else is_locator sys path False) = Inr d)"
  using st unfolding stat_def
  by (auto simp add: hd populate_three [where fa = "getsize_from_header sys"
        and fb = "getctime_from_header sys" and fc = "getmtime_from_header sys", OF e1 e2 e3]
        simp del: populate.simps split: sum.splits if_splits)

lemma extractors_leftover:
  assumes "getsize_from_header sys h = (r1, h1)"
    and "getctime_from_header sys h1 = (r2, h2)"
    and "getmtime_from_header sys h2 = (r3, h3)"
  shows "set h1 \<subseteq> set h" and "set h2 \<subseteq> set h" and "set h3 \<subseteq> set h"
proof -
  show 1: "set h1 \<subseteq> set h"
    using assms(1) getsize_keys_result unfolding getsize_from_header_def by blast
  have "set h2 \<subseteq> set h1"
    using assms(2) get_time_result unfolding getctime_from_header_def by blast
  with 1 show 2: "set h2 \<subseteq> set h" by blast
  have "set h3 \<subseteq> set h2"
    using assms(3) get_time_result unfolding getmtime_from_header_def by blast
  with 2 show "set h3 \<subseteq> set h" by blast
qed

lemma map_of_StInt:
  "map_of (map (\<lambda>(k, n). (k, StInt n)) st) k = map_option StInt (map_of st k)"
  by (induction st) auto

text \<open>
  Claim C2, as the code has it.  When \<open>stat\<close> returns and no key of the header is
  published under the name \<open>st_mode\<close>, the mode is that of a directory exactly when
  the path is empty, ends in a separator or is a locator, and the size is zero: no size
  field was found in the header, or the one found is 0.  In every other case it is the
  mode of a regular file.
\<close>

theorem stat_mode:
  assumes "head sys path ck header = Inr h"
    and "stat sys path ck header = Inr r"
    and "''st_mode'' \<notin> attr_name ` fst ` set h"
  shows "map_of r ''st_mode'' = Some (StInt
     (if (path = [] \<or> last path = CHR ''/'' \<or> is_locator sys path False = Inr True) \<and>
         (\<forall>n. fst (getsize_from_header sys h) = Inr n \<longrightarrow> n = 0)
      then S_IFDIR else S_IFREG))"
proof -
  obtain r1 h1 where e1: "getsize_from_header sys h = (r1, h1)" by fastforce
  obtain r2 h2 where e2: "getctime_from_header sys h1 = (r2, h2)" by fastforce
  obtain r3 h3 where e3: "getmtime_from_header sys h2 = (r3, h3)" by fastforce
  from stat_Inr [OF assms(1) e1 e2 e3 assms(2)]
  obtain d where ok: "caught r1" "caught r2" "caught r3"
    and dir: "(if path = [] then Inr True else if last path = CHR ''/'' then Inr True
               else is_locator sys path False) = Inr d"
    by blast
  have d: "d \<longleftrightarrow> path = [] \<or> last path = CHR ''/'' \<or> is_locator sys path False = Inr True"
    using dir by (auto split: if_splits)
  have sz: "(case r1 of Inr n \<Rightarrow> n = 0 | Inl e \<Rightarrow> True) \<longleftrightarrow>
      (\<forall>n. fst (getsize_from_header sys h) = Inr n \<longrightarrow> n = 0)"
    by (cases r1) (simp_all add: e1)
  have nm: "''st_mode'' \<notin> attr_name ` fst ` set h3"
    using assms(3) extractors_leftover(3) [OF e1 e2 e3] by blast
  have "r = add_header_keys h3
           (map (\<lambda>(k, n). (k, StInt n))
              (AList.update ''st_mode''
                 (if d \<and> (case r1 of Inr n \<Rightarrow> n = 0 | Inl e \<Rightarrow> True) then S_IFDIR else S_IFREG)
                 (store_field ''st_mtime'' r3 (store_field ''st_ctime'' r2
                    (store_field ''st_size'' r1 stat_init)))))"
    using stat_unfold [OF assms(1) e1 e2 e3 ok dir] assms(2) by simp
  then have "map_of r ''st_mode'' = Some (StInt
      (if d \<and> (case r1 of Inr n \<Rightarrow> n = 0 | Inl e \<Rightarrow> True) then S_IFDIR else S_IFREG))"
    by (simp only: add_header_keys_map_of [OF nm] map_of_StInt update_conv') simp
  then show ?thesis by (simp only: d sz)
qed

lemma stat_init_keys: "fst ` set stat_init = set stat_fields"
  by (simp add: stat_init_def image_image)

lemma stored_fields_keys:
  "set stat_fields \<subseteq> fst ` set (store_field kc rc (store_field kb rb (store_field ka ra stat_init)))"
proof -
  have "set stat_fields \<subseteq> fst ` set (store_field ka ra stat_init)"
    using store_field_keys [of stat_init ka ra] by (simp only: stat_init_keys)
  also have "\<dots> \<subseteq> fst ` set (store_field kb rb (store_field ka ra stat_init))"
    by (rule store_field_keys)
  also have "\<dots> \<subseteq> fst ` set (store_field kc rc (store_field kb rb (store_field ka ra stat_init)))"
    by (rule store_field_keys)
  finally show ?thesis .
qed

lemma stored_fields_value:
  "map_of (store_field ''st_mtime'' rc (store_field ''st_ctime'' rb
      (store_field ''st_size'' ra stat_init))) ''st_size''
     = Some (case ra of Inr n \<Rightarrow> n | Inl e \<Rightarrow> 0)"
  "map_of (store_field ''st_mtime'' rc (store_field ''st_ctime'' rb
      (store_field ''st_size'' ra stat_init))) ''st_ctime''
     = Some (case rb of Inr n \<Rightarrow> n | Inl e \<Rightarrow> 0)"
  "map_of (store_field ''st_mtime'' rc (store_field ''st_ctime'' rb
      (store_field ''st_size'' ra stat_init))) ''st_mtime''
     = Some (case rc of Inr n \<Rightarrow> n | Inl e \<Rightarrow> 0)"
  by (simp_all add: store_field_map_of stat_init_map_of stat_fields_def split: sum.splits)

lemma map_StInt_keys: "fst ` set (map (\<lambda>(k, n). (k, StInt n)) st) = fst ` set st"
  by force

text \<open>
  Claim C10, as the code has it.  Take a header whose candidate fields, where present,
  convert to integers, and a path whose locator test does not raise.  Then \<open>stat\<close>
  returns a structure with the ten standard fields.  When the candidate keys of the
  size are all missing, the extractor raises UnsupportedOperation, which is caught;
  the field of a missing size, creation time or modification time is 0, provided no
  key of the header is published under the name of that field.
\<close>

theorem stat_total:
  assumes "head sys path ck header = Inr h"
    and "path = [] \<or> last path = CHR ''/'' \<or> (\<exists>b. is_locator sys path False = Inr b)"
    and "\<forall>k\<in>set (SIZE_KEYS sys). \<forall>v. (k, v) \<in> set h \<longrightarrow> (\<exists>n. to_int sys v = Inr n)"
    and "\<forall>k\<in>set (CTIME_KEYS sys) \<union> set (MTIME_KEYS sys). \<forall>v. (k, v) \<in> set h \<longrightarrow>
           (\<exists>n. to_time sys v = Inr n)"
  shows "\<exists>r. stat sys path ck header = Inr r \<and> set stat_fields \<subseteq> fst ` set r \<and>
     ((\<forall>k\<in>set (SIZE_KEYS sys). k \<notin> fst ` set h) \<longrightarrow>
        fst (getsize_from_header sys h) = Inl (UnsupportedOperation ''getsize'') \<and>
        (''st_size'' \<notin> attr_name ` fst ` set h \<longrightarrow> map_of r ''st_size'' = Some (StInt 0))) \<and>
     ((\<forall>k\<in>set (CTIME_KEYS sys). k \<notin> fst ` set h) \<and> ''st_ctime'' \<notin> attr_name ` fst ` set h
        \<longrightarrow> map_of r ''st_ctime'' = Some (StInt 0)) \<and>
     ((\<forall>k\<in>set (MTIME_KEYS sys). k \<notin> fst ` set h) \<and> ''st_mtime'' \<notin> attr_name ` fst ` set h
        \<longrightarrow> map_of r ''st_mtime'' = Some (StInt 0))"
proof -
  obtain r1 h1 where e1: "getsize_from_header sys h = (r1, h1)" by fastforce
  obtain r2 h2 where e2: "getctime_from_header sys h1 = (r2, h2)" by fastforce
  obtain r3 h3 where e3: "getmtime_from_header sys h2 = (r3, h3)" by fastforce
  note sub = extractors_leftover [OF e1 e2 e3]
  have c1: "caught r1"
    using getsize_keys_result [OF e1 [unfolded getsize_from_header_def]] assms(3)
    by (force simp: caught_def)
  have c2: "caught r2"
    using get_time_result [OF e2 [unfolded getctime_from_header_def]] assms(4) sub(1)
    by (force simp: caught_def)
  have c3: "caught r3"
    using get_time_result [OF e3 [unfolded getmtime_from_header_def]] assms(4) sub(2)
    by (force simp: caught_def)
  have "\<exists>d. (if path = [] then Inr True else if last path = CHR ''/'' then Inr True
               else is_locator sys path False) = Inr d"
    using assms(2) by (cases "path = []"; cases "last path = CHR ''/''") auto
  then obtain d where dir: "(if path = [] then Inr True else if last path = CHR ''/'' then Inr True
               else is_locator sys path False) = Inr d" ..
  define st where "st = store_field ''st_mtime'' r3 (store_field ''st_ctime'' r2
                    (store_field ''st_size'' r1 stat_init))"
  define mode where "mode = (if d \<and> (case r1 of Inr n \<Rightarrow> n = 0 | Inl e \<Rightarrow> True)
      then S_IFDIR else S_IFREG)"
  define r where "r = add_header_keys h3
           (map (\<lambda>(k, n). (k, StInt n)) (AList.update ''st_mode'' mode st))"
  have res: "stat sys path ck header = Inr r"
    using stat_unfold [OF assms(1) e1 e2 e3 c1 c2 c3 dir] by (simp add: r_def st_def mode_def)
  have "set stat_fields \<subseteq> fst ` set st"
    unfolding st_def by (rule stored_fields_keys)
  then have "set stat_fields \<subseteq> fst ` set (AList.update ''st_mode'' mode st)"
    by (auto simp: dom_update)
  moreover have "fst ` set (AList.update ''st_mode'' mode st) \<subseteq> fst ` set r"
    unfolding r_def
    using add_header_keys_keys [of "map (\<lambda>(k, n). (k, StInt n)) (AList.update ''st_mode'' mode st)" h3]
    by (simp only: map_StInt_keys)
  ultimately have fields: "set stat_fields \<subseteq> fst ` set r" by (rule subset_trans)
  have val: "map_of r k = map_option StInt (map_of st k)"
    if "k \<notin> attr_name ` fst ` set h" "k \<noteq> ''st_mode''" for k
  proof -
    have "k \<notin> attr_name ` fst ` set h3" using that(1) sub(3) by blast
    then show ?thesis
      unfolding r_def using that(2)
      by (simp add: add_header_keys_map_of map_of_StInt update_conv')
  qed
  have size: "fst (getsize_from_header sys h) = Inl (UnsupportedOperation ''getsize'') \<and>
        (''st_size'' \<notin> attr_name ` fst ` set h \<longrightarrow> map_of r ''st_size'' = Some (StInt 0))"
    if m: "\<forall>k\<in>set (SIZE_KEYS sys). k \<notin> fst ` set h"
  proof -
    have "r1 = Inl (UnsupportedOperation ''getsize'')"
      using getsize_keys_missing [OF m, of "to_int sys"] e1 by (simp add: getsize_from_header_def)
    then show ?thesis
      using val [of "''st_size''"] stored_fields_value(1) [of r3 r2 r1]
      by (simp add: e1 st_def)
  qed
  have ctime: "map_of r ''st_ctime'' = Some (StInt 0)"
    if m: "(\<forall>k\<in>set (CTIME_KEYS sys). k \<notin> fst ` set h) \<and> ''st_ctime'' \<notin> attr_name ` fst ` set h"
  proof -
    have "\<forall>k\<in>set (CTIME_KEYS sys). k \<notin> fst ` set h1" using m sub(1) by blast
    from get_time_missing [OF this, of "to_time sys" "''getctime''"]
    have "r2 = Inl (UnsupportedOperation ''getctime'')"
      using e2 by (simp add: getctime_from_header_def)
    then show ?thesis
      using val [of "''st_ctime''"] m stored_fields_value(2) [of r3 r2 r1]
      by (simp add: st_def)
  qed
  have mtime: "map_of r ''st_mtime'' = Some (StInt 0)"
    if m: "(\<forall>k\<in>set (MTIME_KEYS sys). k \<notin> fst ` set h) \<and> ''st_mtime'' \<notin> attr_name ` fst ` set h"
  proof -
    have "\<forall>k\<in>set (MTIME_KEYS sys). k \<notin> fst ` set h2" using m sub(2) by blast
    from get_time_missing [OF this, of "to_time sys" "''getmtime''"]
    have "r3 = Inl (UnsupportedOperation ''getmtime'')"
      using e3 by (simp add: getmtime_from_header_def)
    then show ?thesis
      using val [of "''st_mtime''"] m stored_fields_value(3) [of r3 r2 r1]
      by (simp add: st_def)
  qed
  show ?thesis using res fields size ctime mtime by blast
qed



lemmas extractor_simps = getsize_from_header_def getctime_from_header_def
  getmtime_from_header_def example_system_def pop_def AList.delete_eq

lemmas stat_eval_simps = stat_def head_def add_header_keys_def stat_init_def stat_fields_def

lemma attr_name_examples:
  "attr_name ''ETag'' = ''st_etag''"
  "attr_name ''Content-Length'' = ''st_contentlength''"
  "attr_name ''Size'' = ''st_size''"
  by (simp_all add: attr_name_def lower_char_def is_alnum_lower_def)

lemma example_stat_etag:
  "stat (example_system []) ''s3://bucket/dir/'' None (Some [(''ETag'', 7)]) =
      Inr [(''st_mode'', StInt S_IFDIR), (''st_ino'', StInt 0), (''st_dev'', StInt 0),
           (''st_nlink'', StInt 0), (''st_uid'', StInt 0), (''st_gid'', StInt 0),
           (''st_size'', StInt 0), (''st_atime'', StInt 0), (''st_mtime'', StInt 0),
           (''st_ctime'', StInt 0), (''st_etag'', StRaw 7)]"
proof -
  have "getsize_from_header (example_system []) [(''ETag'', 7)]
      = (Inl (UnsupportedOperation ''getsize''), [(''ETag'', 7)])"
    and "getctime_from_header (example_system []) [(''ETag'', 7)]
      = (Inl (UnsupportedOperation ''getctime''), [(''ETag'', 7)])"
    and "getmtime_from_header (example_system []) [(''ETag'', 7)]
      = (Inl (UnsupportedOperation ''getmtime''), [(''ETag'', 7)])"
    by (simp_all add: extractor_simps)
  then show ?thesis
    by (simp add: stat_eval_simps attr_name_examples)
qed

lemma example_stat_file:
  "stat (example_system []) ''s3://bucket/dir/file'' None (Some [(''Content-Length'', 10)]) =
      Inr [(''st_mode'', StInt S_IFREG), (''st_ino'', StInt 0), (''st_dev'', StInt 0),
           (''st_nlink'', StInt 0), (''st_uid'', StInt 0), (''st_gid'', StInt 0),
           (''st_size'', StInt 10), (''st_atime'', StInt 0), (''st_mtime'', StInt 0),
           (''st_ctime'', StInt 0)]"
proof -
  have "getsize_from_header (example_system []) [(''Content-Length'', 10)] = (Inr 10, [])"
    and "getctime_from_header (example_system []) []
      = (Inl (UnsupportedOperation ''getctime''), [])"
    and "getmtime_from_header (example_system []) []
      = (Inl (UnsupportedOperation ''getmtime''), [])"
    and "is_locator (example_system []) ''s3://bucket/dir/file'' False = Inr False"
    by (simp_all add: extractor_simps ex_simps)
  then show ?thesis
    by (simp add: stat_eval_simps S_IFDIR_def S_IFREG_def)
qed

theorem stat_mode_witness:
  "map_sum id (\<lambda>r. map_of r ''st_mode'')
     (stat (example_system []) ''s3://bucket/dir/'' None (Some [(''ETag'', 7)]))
     = Inr (Some (StInt S_IFDIR)) \<and>
   map_sum id (\<lambda>r. map_of r ''st_mode'')
     (stat (example_system []) ''s3://bucket/dir/file'' None (Some [(''Content-Length'', 10)]))
     = Inr (Some (StInt S_IFREG))"
proof -
  let ?s = "example_system [] :: (s3_kwargs, int) system"
  have h1: "head ?s ''s3://bucket/dir/'' None (Some [(''ETag'', 7)]) = Inr [(''ETag'', 7)]"
    by (simp add: head_def)
  have n1: "''st_mode'' \<notin> attr_name ` fst ` set [(''ETag'', 7 :: int)]"
    by (simp add: attr_name_examples)
  have h2: "head ?s ''s3://bucket/dir/file'' None (Some [(''Content-Length'', 10)])
      = Inr [(''Content-Length'', 10)]"
    by (simp add: head_def)
  have n2: "''st_mode'' \<notin> attr_name ` fst ` set [(''Content-Length'', 10 :: int)]"
    by (simp add: attr_name_examples)
  from stat_mode [OF h1 example_stat_etag n1] stat_mode [OF h2 example_stat_file n2]
  show ?thesis
    by (simp add: example_stat_etag example_stat_file)
qed

text \<open>
  The claim ties the directory mode to a size that was not resolved.  The header of a
  directory marker has a size field, 0, and \<open>stat\<close> of \<open>s3://bucket/dir/\<close> with it
  gives the directory mode.  The claim also asks for a separator or a locator: the
  empty path has neither and gets the directory mode.
\<close>

theorem stat_mode_counterexample:
  "fst (getsize_from_header (example_system []) [(''Content-Length'', 0)]) = Inr 0 \<and>
   map_sum id (\<lambda>r. map_of r ''st_mode'')
     (stat (example_system []) ''s3://bucket/dir/'' None (Some [(''Content-Length'', 0)]))
     = Inr (Some (StInt S_IFDIR)) \<and>
   is_locator (example_system []) [] False = Inr False \<and>
   map_sum id (\<lambda>r. map_of r ''st_mode'')
     (stat (example_system []) [] None (Some [])) = Inr (Some (StInt S_IFDIR))"
proof -
  have e: "getsize_from_header (example_system []) [(''Content-Length'', 0)] = (Inr 0, [])"
    "getsize_from_header (example_system []) [] = (Inl (UnsupportedOperation ''getsize''), [])"
    "getctime_from_header (example_system []) []
      = (Inl (UnsupportedOperation ''getctime''), [])"
    "getmtime_from_header (example_system []) []
      = (Inl (UnsupportedOperation ''getmtime''), [])"
    by (simp_all add: extractor_simps)
  have l: "is_locator (example_system []) [] False = Inr False"
    by (simp add: ex_simps)
  show ?thesis
    by (simp add: e l stat_eval_simps)
qed

theorem stat_total_witness:
  "stat (example_system []) ''s3://bucket/dir/'' None (Some [(''ETag'', 7)]) =
      Inr [(''st_mode'', StInt S_IFDIR), (''st_ino'', StInt 0), (''st_dev'', StInt 0),
           (''st_nlink'', StInt 0), (''st_uid'', StInt 0), (''st_gid'', StInt 0),
           (''st_size'', StInt 0), (''st_atime'', StInt 0), (''st_mtime'', StInt 0),
           (''st_ctime'', StInt 0), (''st_etag'', StRaw 7)] \<and>
   set stat_fields \<subseteq> fst ` set [(''st_mode'', StInt S_IFDIR), (''st_ino'', StInt 0),
           (''st_dev'', StInt 0), (''st_nlink'', StInt 0), (''st_uid'', StInt 0),
           (''st_gid'', StInt 0), (''st_size'', StInt 0), (''st_atime'', StInt 0),
           (''st_mtime'', StInt 0), (''st_ctime'', StInt 0), (''st_etag'', StRaw (7 :: int))]"
proof -
  let ?s = "example_system [] :: (s3_kwargs, int) system"
  have h: "head ?s ''s3://bucket/dir/'' None (Some [(''ETag'', 7)]) = Inr [(''ETag'', 7)]"
    by (simp add: head_def)
  have p: "''s3://bucket/dir/'' = [] \<or> last ''s3://bucket/dir/'' = CHR ''/'' \<or>
      (\<exists>b. is_locator ?s ''s3://bucket/dir/'' False = Inr b)"
    by simp
  have c1: "\<forall>k\<in>set (SIZE_KEYS ?s). \<forall>v. (k, v) \<in> set [(''ETag'', 7)] \<longrightarrow>
      (\<exists>n. to_int ?s v = Inr n)"
    by (simp add: example_system_def)
  have c2: "\<forall>k\<in>set (CTIME_KEYS ?s) \<union> set (MTIME_KEYS ?s). \<forall>v. (k, v) \<in> set [(''ETag'', 7)] \<longrightarrow>
      (\<exists>n. to_time ?s v = Inr n)"
    by (simp add: example_system_def)
  from stat_total [OF h p c1 c2] show ?thesis
    by (auto simp: example_stat_etag)
qed

text \<open>
  The header keys are published after the standard fields are set, under their
  lower-cased alphanumeric names.  With the header key \<open>Size\<close> the size extractor
  raises UnsupportedOperation, yet \<open>st_size\<close> of the result is the header's value and
  not 0.
\<close>

theorem stat_total_counterexample:
  "fst (getsize_from_header (example_system []) [(''Size'', 5)])
     = Inl (UnsupportedOperation ''getsize'') \<and>
   map_sum id (\<lambda>r. map_of r ''st_size'')
     (stat (example_system []) ''s3://bucket/key'' None (Some [(''Size'', 5)]))
     = Inr (Some (StRaw 5))"
proof -
  have e: "getsize_from_header (example_system []) [(''Size'', 5)]
      = (Inl (UnsupportedOperation ''getsize''), [(''Size'', 5)])"
    "getctime_from_header (example_system []) [(''Size'', 5)]
      = (Inl (UnsupportedOperation ''getctime''), [(''Size'', 5)])"
    "getmtime_from_header (example_system []) [(''Size'', 5)]
      = (Inl (UnsupportedOperation ''getmtime''), [(''Size'', 5)])"
    by (simp_all add: extractor_simps)
  have l: "is_locator (example_system []) ''s3://bucket/key'' False = Inr False"
    by (simp add: ex_simps)
  show ?thesis
    by (simp add: e l stat_eval_simps attr_name_examples)
qed

end
